theory Spec2Isabelle
  imports Complex_Main
begin

section \<open>Python values shared by the operations\<close>

text \<open>
  The exceptions the modelled functions can raise. Every raise of the source is a value
  \<open>Inl e\<close> of the result type \<open>py_error + 'a\<close>.
\<close>

datatype py_error =
  IndexError | ValueError | ZeroDivisionError | KeyError | TypeError | AttributeError
  | UnboundLocalError | FileNotFoundError | ReadError | OverflowError

text \<open>
  A numpy array is its shape and its elements in row-major (C) order. Element values are
  mathematical integers: label volumes hold integers, and the conversions between the
  array's own element type, the float64 scratch frame and the final \<open>int32\<close> are the
  identity on every value those types hold exactly, which is how they are taken here.
\<close>

record ndarray =
  shape :: "nat list"
  data :: "int list"

definition wf_ndarray :: "ndarray \<Rightarrow> bool" where
  "wf_ndarray a \<longleftrightarrow> length (data a) = prod_list (shape a)"

text \<open>\<open>np.unique\<close>: the distinct values, ascending.\<close>

definition np_unique :: "int list \<Rightarrow> int list" where
  "np_unique xs = sort (remdups xs)"

section \<open>Label Relabeler: \<open>clean_up_annotations\<close>\<close>

definition time_axis :: "string \<Rightarrow> nat" where
  "time_axis data_format = (if data_format = ''channels_first'' then 1 else 0)"

text \<open>
  The flat positions, in row-major order, of the slice \<open>y[:, f]\<close> (channels first) or
  \<open>y[f]\<close> (any other layout string) of an array of shape \<open>shp\<close>.
\<close>

definition frame_positions :: "string \<Rightarrow> nat list \<Rightarrow> nat \<Rightarrow> nat list" where
  "frame_positions data_format shp f =
     (if data_format = ''channels_first''
      then (let s0 = prod_list (tl shp); s1 = prod_list (drop 2 shp)
            in concat (map (\<lambda>c. map (\<lambda>k. c * s0 + f * s1 + k) [0..<s1]) [0..<hd shp]))
      else (let s = prod_list (tl shp) in map (\<lambda>k. f * s + k) [0..<s]))"

text \<open>Reading the slice: the values at those positions.\<close>

definition frame_values :: "string \<Rightarrow> ndarray \<Rightarrow> nat \<Rightarrow> int list" where
  "frame_values data_format y f = map (\<lambda>p. data y ! p) (frame_positions data_format (shape y) f)"

text \<open>Writing the slice: \<open>y[:, f] = vals\<close> or \<open>y[f] = vals\<close>, position by position.\<close>

definition set_frame :: "string \<Rightarrow> ndarray \<Rightarrow> nat \<Rightarrow> int list \<Rightarrow> ndarray" where
  "set_frame data_format y f vals =
     y\<lparr>data := fold (\<lambda>(p, v) d. d[p := v]) (zip (frame_positions data_format (shape y) f) vals) (data y)\<rparr>"

text \<open>
  The first loop (source lines 59 to 63): per frame, the distinct values with every 0
  deleted.
\<close>

definition all_uniques :: "string \<Rightarrow> ndarray \<Rightarrow> nat \<Rightarrow> int list list" where
  "all_uniques data_format y num_frames =
     map (\<lambda>f. filter (\<lambda>c. c \<noteq> 0) (np_unique (frame_values data_format y f))) [0..<num_frames]"

text \<open>
  The inner loop (lines 70 to 72): \<open>y_frame_new[y_frame == cell_label] = uid; uid += 1\<close>
  for each label in turn. It returns the new frame and the counter.
\<close>

fun assign_cells :: "int list \<Rightarrow> int list \<Rightarrow> int list \<Rightarrow> int \<Rightarrow> int list \<times> int" where
  "assign_cells y_frame [] y_frame_new uid = (y_frame_new, uid)"
| "assign_cells y_frame (cell_label # rest) y_frame_new uid =
     assign_cells y_frame rest
       (map2 (\<lambda>old new. if old = cell_label then uid else new) y_frame y_frame_new) (uid + 1)"

text \<open>
  The second loop (lines 67 to 76) over \<open>zip(range(num_frames), all_uniques)\<close>. Each
  round reads the frame from the array as it stands, fills a frame of zeros and writes it
  back into the same array.
\<close>

fun relabel_frames :: "string \<Rightarrow> (nat \<times> int list) list \<Rightarrow> ndarray \<Rightarrow> int \<Rightarrow> ndarray \<times> int" where
  "relabel_frames data_format [] y uid = (y, uid)"
| "relabel_frames data_format ((frame, unique_cells) # rest) y uid =
     (let y_frame = frame_values data_format y frame;
          (y_frame_new, uid') = assign_cells y_frame unique_cells (replicate (length y_frame) 0) uid
      in relabel_frames data_format rest (set_frame data_format y frame y_frame_new) uid')"

text \<open>
  The body of \<open>clean_up_annotations\<close> on the array value: \<open>y.shape[time_axis]\<close> raises
  IndexError when the array has too few axes; otherwise the result is the array \<open>y\<close>
  as the loops leave it.
\<close>

definition relabel_volume :: "ndarray \<Rightarrow> int option \<Rightarrow> string \<Rightarrow> py_error + ndarray" where
  "relabel_volume y uid data_format =
     (if length (shape y) \<le> time_axis data_format then Inl IndexError
      else (let num_frames = shape y ! time_axis data_format;
                uniques = all_uniques data_format y num_frames;
                uid0 = (case uid of None \<Rightarrow> sum_list (map (\<lambda>x. int (length x)) uniques) + 1
                                  | Some u \<Rightarrow> u)
            in Inr (fst (relabel_frames data_format (zip [0..<num_frames] uniques) y uid0))))"

text \<open>
  The caller passes a reference. The store maps addresses to arrays; \<open>next_addr\<close> is the
  next unused address. \<open>clean_up_annotations\<close> rewrites the array at the argument's
  address (the writes \<open>y[frame] = y_frame_new\<close> go to the caller's array) and returns the
  address of the fresh array that \<open>y.astype('int32')\<close> makes. The loops run on the
  array value and the store receives the array as they leave it; nothing else reads the
  store in between. An argument that is no array has no \<open>shape\<close>: AttributeError.
\<close>

record store =
  arrays :: "nat \<rightharpoonup> ndarray"
  next_addr :: nat

definition alloc :: "store \<Rightarrow> ndarray \<Rightarrow> store \<times> nat" where
  "alloc s a = (s\<lparr>arrays := (arrays s)(next_addr s \<mapsto> a), next_addr := Suc (next_addr s)\<rparr>, next_addr s)"

definition clean_up_annotations ::
  "store \<Rightarrow> nat \<Rightarrow> int option \<Rightarrow> string \<Rightarrow> py_error + (store \<times> nat)" where
  "clean_up_annotations s y_ref uid data_format =
     (case arrays s y_ref of
        None \<Rightarrow> Inl AttributeError
      | Some y \<Rightarrow>
          (case relabel_volume y uid data_format of
             Inl e \<Rightarrow> Inl e
           | Inr y' \<Rightarrow> Inr (alloc (s\<lparr>arrays := (arrays s)(y_ref \<mapsto> y')\<rparr>) y')))"

section \<open>Pair Sampling Estimator: \<open>count_pairs\<close>\<close>

definition zaxis :: "string \<Rightarrow> nat" where
  "zaxis data_format = (if data_format = ''channels_first'' then 2 else 1)"

text \<open>
  The flat positions of \<open>y[b, :, f, :, :]\<close> (channels first) or \<open>y[b, f, :, :, :]\<close> (any
  other layout string).
\<close>

definition image_positions :: "string \<Rightarrow> nat list \<Rightarrow> nat \<Rightarrow> nat \<Rightarrow> nat list" where
  "image_positions data_format shp b f =
     (if data_format = ''channels_first''
      then (let s0 = prod_list (tl shp); s1 = prod_list (drop 2 shp); s2 = prod_list (drop 3 shp)
            in concat (map (\<lambda>c. map (\<lambda>k. b * s0 + c * s1 + f * s2 + k) [0..<s2]) [0..<shp ! 1]))
      else (let s0 = prod_list (tl shp); s1 = prod_list (drop 2 shp)
            in map (\<lambda>k. b * s0 + f * s1 + k) [0..<s1]))"

text \<open>
  The inner loop (source lines 131 to 137): \<open>len(np.unique(...))\<close> of every image of batch
  item \<open>b\<close>. The count is of all distinct values of the image, the value 0 among them.
\<close>

definition cells_per_image :: "string \<Rightarrow> ndarray \<Rightarrow> nat \<Rightarrow> int list" where
  "cells_per_image data_format y b =
     map (\<lambda>f. int (length (np_unique (map (\<lambda>p. data y ! p) (image_positions data_format (shape y) b f)))))
         [0..<shape y ! zaxis data_format]"

text \<open>\<open>max\<close> of a list raises ValueError on the empty list.\<close>

fun py_max :: "int list \<Rightarrow> py_error + int" where
  "py_max [] = Inl ValueError"
| "py_max (x # xs) = Inr (fold max xs x)"

text \<open>
  One round of the outer loop (lines 131 to 154). \<open>y.shape[zaxis]\<close> needs that axis, the
  five-index subscript needs five axes, \<open>//\<close> by the number of frames raises
  ZeroDivisionError when there is none, and so does \<open>//\<close> by a zero probability.
  \<open>same_probability\<close> is a Python float, that is a rational number; \<open>//\<close> is the floor of
  the exact quotient, and the model takes the float arithmetic as exact.
\<close>

definition cell_pairings :: "string \<Rightarrow> ndarray \<Rightarrow> rat \<Rightarrow> nat \<Rightarrow> py_error + int" where
  "cell_pairings data_format y same_probability b =
     (if length (shape y) \<le> zaxis data_format then Inl IndexError
      else if 0 < shape y ! zaxis data_format \<and> length (shape y) < 5 then Inl IndexError
      else if shape y ! zaxis data_format = 0 then Inl ZeroDivisionError
      else (let cpi = cells_per_image data_format y b;
                average_cells_per_frame = sum_list cpi div int (shape y ! zaxis data_format);
                non_self_cellframes = (average_cells_per_frame - 1) * int (shape y ! zaxis data_format)
            in case py_max cpi of
                 Inl e \<Rightarrow> Inl e
               | Inr m \<Rightarrow>
                   (let non_self_pairings = non_self_cellframes * m
                    in if same_probability = 0 then Inl ZeroDivisionError
                       else Inr \<lfloor>of_int non_self_pairings / same_probability\<rfloor>)))"

fun count_pairs_loop :: "string \<Rightarrow> ndarray \<Rightarrow> rat \<Rightarrow> nat list \<Rightarrow> int \<Rightarrow> py_error + int" where
  "count_pairs_loop data_format y same_probability [] total_pairs = Inr total_pairs"
| "count_pairs_loop data_format y same_probability (b # bs) total_pairs =
     (case cell_pairings data_format y same_probability b of
        Inl e \<Rightarrow> Inl e
      | Inr c \<Rightarrow> count_pairs_loop data_format y same_probability bs (total_pairs + c))"

definition count_pairs :: "ndarray \<Rightarrow> rat \<Rightarrow> string \<Rightarrow> py_error + int" where
  "count_pairs y same_probability data_format =
     (if shape y = [] then Inl IndexError
      else count_pairs_loop data_format y same_probability [0..<shape y ! 0] 0)"

text \<open>
  The estimator as the specification words it, to compare with the code: per frame the
  number of distinct non-background labels; their integer-floored average over the
  frames; that average minus 1, times the number of frames, times the largest per-frame
  count; the floor of the quotient by the probability; the sum over the batch items.
\<close>

definition cells_per_image_spec :: "string \<Rightarrow> ndarray \<Rightarrow> nat \<Rightarrow> int list" where
  "cells_per_image_spec data_format y b =
     map (\<lambda>f. int (length (filter (\<lambda>c. c \<noteq> 0)
                (np_unique (map (\<lambda>p. data y ! p) (image_positions data_format (shape y) b f))))))
         [0..<shape y ! zaxis data_format]"

definition pairs_needed_spec :: "string \<Rightarrow> ndarray \<Rightarrow> rat \<Rightarrow> nat \<Rightarrow> int" where
  "pairs_needed_spec data_format y same_probability b =
     (let counts = cells_per_image_spec data_format y b;
          num_frames = int (shape y ! zaxis data_format);
          avg_cells_per_frame = sum_list counts div num_frames;
          non_self_cellframes = (avg_cells_per_frame - 1) * num_frames;
          non_self_pairings = non_self_cellframes * fold max (tl counts) (hd counts)
      in \<lfloor>of_int non_self_pairings / same_probability\<rfloor>)"

definition count_pairs_spec :: "ndarray \<Rightarrow> rat \<Rightarrow> string \<Rightarrow> int" where
  "count_pairs_spec y same_probability data_format =
     (\<Sum>b\<leftarrow>[0..<shape y ! 0]. pairs_needed_spec data_format y same_probability b)"

section \<open>Strings and paths\<close>

text \<open>
  Paths are ASCII strings. \<open>str.lower\<close> maps the letters A to Z to a to z and leaves every
  other character.
\<close>

definition lower_char :: "char \<Rightarrow> char" where
  "lower_char c = (let n = (of_char c :: nat) in if 65 \<le> n \<and> n \<le> 90 then char_of (n + 32) else c)"

definition str_lower :: "string \<Rightarrow> string" where
  "str_lower s = map lower_char s"

definition endswith :: "string \<Rightarrow> string \<Rightarrow> bool" where
  "endswith s suffix \<longleftrightarrow> length suffix \<le> length s \<and> drop (length s - length suffix) s = suffix"

text \<open>\<open>str.rfind\<close> of one character: the last index where it stands, or -1.\<close>

definition rfind :: "string \<Rightarrow> char \<Rightarrow> int" where
  "rfind p c = (case filter (\<lambda>i. p ! i = c) (rev [0..<length p]) of [] \<Rightarrow> - 1 | i # _ \<Rightarrow> int i)"

text \<open>
  \<open>os.path.splitext\<close> on a POSIX path: the extension starts at the last dot after the last
  slash, unless only dots stand between that slash and it (leading dots of the file name
  start no extension).
\<close>

definition splitext :: "string \<Rightarrow> string \<times> string" where
  "splitext p =
     (let sepIndex = rfind p CHR ''/''; dotIndex = rfind p CHR ''.''
      in if dotIndex > sepIndex \<and>
            list_ex (\<lambda>i. p ! i \<noteq> CHR ''.'') [nat (sepIndex + 1)..<nat dotIndex]
         then (take (nat dotIndex) p, drop (nat dotIndex) p)
         else (p, []))"

text \<open>
  \<open>str\<close> of an integer, as the JSON encoder writes an integer key, and \<open>int\<close> of a string:
  an optional sign and decimal digits (the forms with spaces or underscores that Python
  also reads are not modelled and count as ValueError).
\<close>

fun digits :: "nat \<Rightarrow> string" where
  "digits n = (if n < 10 then [char_of (48 + n)] else digits (n div 10) @ [char_of (48 + n mod 10)])"

definition str_of_int :: "int \<Rightarrow> string" where
  "str_of_int i = (if i < 0 then CHR ''-'' # digits (nat (- i)) else digits (nat i))"

definition is_digit :: "char \<Rightarrow> bool" where
  "is_digit c \<longleftrightarrow> 48 \<le> (of_char c :: nat) \<and> (of_char c :: nat) \<le> 57"

definition digits_value :: "string \<Rightarrow> nat" where
  "digits_value s = fold (\<lambda>c acc. acc * 10 + (of_char c - 48)) s 0"

definition py_int :: "string \<Rightarrow> py_error + int" where
  "py_int s =
     (case s of
        [] \<Rightarrow> Inl ValueError
      | c # rest \<Rightarrow>
          if c = CHR ''-'' \<and> rest \<noteq> [] \<and> list_all is_digit rest then Inr (- int (digits_value rest))
          else if c = CHR ''+'' \<and> rest \<noteq> [] \<and> list_all is_digit rest then Inr (int (digits_value rest))
          else if list_all is_digit s then Inr (int (digits_value s))
          else Inl ValueError)"

section \<open>Archive Codec: \<open>save_trks\<close> and \<open>load_trks\<close>\<close>

text \<open>
  A JSON document. A Lineage Record is such a value: an object with a \<open>daughters\<close> member
  among its fields.
\<close>

datatype json =
  JNull | JBool bool | JInt int | JStr string | JList "json list" | JObj "(string \<times> json) list"

text \<open>
  The content of an archive member: the bytes \<open>np.save\<close> writes for an array, the text
  \<open>json.dump\<close> writes for a document, or anything else. \<open>np.load\<close> and \<open>json.loads\<close> read
  back what the matching writer wrote and raise ValueError on other content. A file is a
  tar archive (its members in order) or not one. The world is the file system and the
  trace of what was opened and printed.
\<close>

datatype payload = Npy ndarray | JsonText json | OtherBytes

datatype fs_file = Tar "(string \<times> payload) list" | NotTar

datatype pyfloat = Finite rat | NaN | PosInf | NegInf

datatype printed_value = NoValue | ShapeValue "nat list" | IntValue int | FloatValue pyfloat

datatype io_event = OpenWrite string | OpenRead string | Printed string printed_value

record world =
  files :: "string \<rightharpoonup> fs_file"
  events :: "io_event list"

text \<open>
  What \<open>load_trks\<close> returns under the key \<open>lineages\<close>: the list of Lineage Graphs with
  integer keys, or, for a document that is an empty object or an empty string, that
  document as it is (the conversion loop has nothing to walk).
\<close>

datatype lineages_value = Graphs "(int \<times> json) list list" | Unconverted json

record trks =
  trks_lineages :: lineages_value
  trks_X :: ndarray
  trks_y :: ndarray

text \<open>
  A Python dict keeps its keys in insertion order, and storing under a key it holds
  replaces the value in place.
\<close>

fun dict_set :: "('k \<times> 'v) list \<Rightarrow> 'k \<Rightarrow> 'v \<Rightarrow> ('k \<times> 'v) list" where
  "dict_set [] k v = [(k, v)]"
| "dict_set ((k', v') # d) k v = (if k' = k then (k, v) # d else (k', v') # dict_set d k v)"

definition py_dict :: "('k \<times> 'v) list \<Rightarrow> ('k \<times> 'v) list" where
  "py_dict items = fold (\<lambda>(k, v) d. dict_set d k v) items []"

text \<open>\<open>json.dump(lineages, ...)\<close>: every integer key becomes its decimal string.\<close>

definition json_dump :: "(int \<times> json) list list \<Rightarrow> json" where
  "json_dump lineages = JList (map (\<lambda>tracks. JObj (map (\<lambda>(k, v). (str_of_int k, v)) tracks)) lineages)"

definition np_load :: "payload \<Rightarrow> py_error + ndarray" where
  "np_load p = (case p of Npy a \<Rightarrow> Inr a | _ \<Rightarrow> Inl ValueError)"

definition json_loads :: "payload \<Rightarrow> py_error + json" where
  "json_loads p = (case p of JsonText j \<Rightarrow> Inr j | _ \<Rightarrow> Inl ValueError)"

text \<open>\<open>getmember\<close> and \<open>extractfile\<close> by name: the last member of that name, or KeyError.\<close>

definition getmember :: "(string \<times> payload) list \<Rightarrow> string \<Rightarrow> py_error + payload" where
  "getmember members name = (case map_of (rev members) name of None \<Rightarrow> Inl KeyError | Some p \<Rightarrow> Inr p)"

text \<open>
  \<open>{int(k): v for k, v in tracks.items()}\<close> (source lines 192 and 199): the members of the
  parsed object, as the dict \<open>json.loads\<close> built, stored one by one under \<open>int(k)\<close>. A value
  that is no object has no \<open>items\<close>.
\<close>

fun int_keys :: "(string \<times> json) list \<Rightarrow> (int \<times> json) list \<Rightarrow> py_error + (int \<times> json) list" where
  "int_keys [] d = Inr d"
| "int_keys ((k, v) # items) d =
     (case py_int k of Inl e \<Rightarrow> Inl e | Inr i \<Rightarrow> int_keys items (dict_set d i v))"

definition convert_tracks :: "json \<Rightarrow> py_error + (int \<times> json) list" where
  "convert_tracks tracks =
     (case tracks of JObj members \<Rightarrow> int_keys (py_dict members) [] | _ \<Rightarrow> Inl AttributeError)"

fun convert_all :: "json list \<Rightarrow> py_error + (int \<times> json) list list" where
  "convert_all [] = Inr []"
| "convert_all (tracks # rest) =
     (case convert_tracks tracks of
        Inl e \<Rightarrow> Inl e
      | Inr g \<Rightarrow> (case convert_all rest of Inl e \<Rightarrow> Inl e | Inr gs \<Rightarrow> Inr (g # gs)))"

text \<open>
  The loop \<open>for i, tracks in enumerate(lineages)\<close> (lines 191 and 192). Over a list it
  converts every element; over a non-empty object or string it meets a string, which has
  no \<open>items\<close>; a number, a boolean or null cannot be walked.
\<close>

definition convert_lineages :: "json \<Rightarrow> py_error + lineages_value" where
  "convert_lineages lineages =
     (case lineages of
        JList graphs \<Rightarrow> (case convert_all graphs of Inl e \<Rightarrow> Inl e | Inr gs \<Rightarrow> Inr (Graphs gs))
      | JObj members \<Rightarrow> (if members = [] then Inr (Unconverted lineages) else Inl AttributeError)
      | JStr s \<Rightarrow> (if s = [] then Inr (Unconverted lineages) else Inl AttributeError)
      | _ \<Rightarrow> Inl TypeError)"

text \<open>
  Lines 185 to 201: the branch on the extension. With any other extension neither branch
  binds \<open>lineages\<close>, and the \<open>return\<close> raises UnboundLocalError.
\<close>

definition read_lineages :: "(string \<times> payload) list \<Rightarrow> string \<Rightarrow> py_error + lineages_value" where
  "read_lineages members filename =
     (let file_extension = snd (splitext filename)
      in if file_extension = ''.trks''
         then (case getmember members ''lineages.json'' of
                 Inl e \<Rightarrow> Inl e
               | Inr trk_data \<Rightarrow>
                   (case json_loads trk_data of Inl e \<Rightarrow> Inl e | Inr lineages \<Rightarrow> convert_lineages lineages))
         else if file_extension = ''.trk''
         then (case getmember members ''lineage.json'' of
                 Inl e \<Rightarrow> Inl e
               | Inr trk_data \<Rightarrow>
                   (case json_loads trk_data of
                      Inl e \<Rightarrow> Inl e
                    | Inr lineage \<Rightarrow>
                        (case convert_tracks lineage of Inl e \<Rightarrow> Inl e | Inr g \<Rightarrow> Inr (Graphs [g]))))
         else Inl UnboundLocalError)"

text \<open>Lines 172 to 201 on the members of the opened archive: both arrays first.\<close>

definition read_members :: "(string \<times> payload) list \<Rightarrow> string \<Rightarrow> py_error + trks" where
  "read_members members filename =
     (case getmember members ''raw.npy'' of
        Inl e \<Rightarrow> Inl e
      | Inr raw_blob \<Rightarrow>
          (case np_load raw_blob of
             Inl e \<Rightarrow> Inl e
           | Inr raw \<Rightarrow>
               (case getmember members ''tracked.npy'' of
                  Inl e \<Rightarrow> Inl e
                | Inr tracked_blob \<Rightarrow>
                    (case np_load tracked_blob of
                       Inl e \<Rightarrow> Inl e
                     | Inr tracked \<Rightarrow>
                         (case read_lineages members filename of
                            Inl e \<Rightarrow> Inl e
                          | Inr lineages \<Rightarrow>
                              Inr \<lparr>trks_lineages = lineages, trks_X = raw, trks_y = tracked\<rparr>)))))"

definition load_trks :: "world \<Rightarrow> string \<Rightarrow> world \<times> (py_error + trks)" where
  "load_trks w filename =
     (let w' = w\<lparr>events := events w @ [OpenRead filename]\<rparr>
      in case files w filename of
           None \<Rightarrow> (w', Inl FileNotFoundError)
         | Some NotTar \<Rightarrow> (w', Inl ReadError)
         | Some (Tar members) \<Rightarrow> (w', read_members members filename))"

text \<open>
  \<open>save_trks\<close>: the guard on the lower-cased name, then the archive with its three members
  replaces whatever the path held. The temporary files are gone when the call returns and
  are left out of the world.
\<close>

definition save_trks ::
  "world \<Rightarrow> string \<Rightarrow> (int \<times> json) list list \<Rightarrow> ndarray \<Rightarrow> ndarray \<Rightarrow> world \<times> (py_error + unit)" where
  "save_trks w filename lineages raw tracked =
     (if \<not> endswith (str_lower filename) ''.trks'' then (w, Inl ValueError)
      else (w\<lparr>files := (files w)(filename \<mapsto>
                 Tar [(''lineages.json'', JsonText (json_dump lineages)),
                      (''raw.npy'', Npy raw), (''tracked.npy'', Npy tracked)]),
               events := events w @ [OpenWrite filename]\<rparr>, Inr ()))"

section \<open>Lineage Statistics Analyzer: \<open>trks_stats\<close>\<close>

text \<open>
  Floats are rationals, with the values numpy produces where no number fits: the mean of
  nothing is NaN, a non-zero number over zero is an infinity. Rounding is not modelled.
\<close>

definition np_average_ints :: "int list \<Rightarrow> pyfloat" where
  "np_average_ints xs = (if xs = [] then NaN else Finite (of_int (sum_list xs) / of_nat (length xs)))"

fun finite_value :: "pyfloat \<Rightarrow> rat option" where
  "finite_value (Finite q) = Some q"
| "finite_value _ = None"

definition np_average :: "pyfloat list \<Rightarrow> pyfloat" where
  "np_average xs =
     (if xs = [] \<or> list_ex (\<lambda>x. finite_value x = None) xs then NaN
      else Finite (sum_list (map (\<lambda>x. the (finite_value x)) xs) / of_nat (length xs)))"

fun float_div :: "pyfloat \<Rightarrow> nat \<Rightarrow> pyfloat" where
  "float_div (Finite q) n =
     (if n \<noteq> 0 then Finite (q / of_nat n) else if 0 < q then PosInf else if q < 0 then NegInf else NaN)"
| "float_div x n = x"

fun float_times :: "pyfloat \<Rightarrow> int \<Rightarrow> pyfloat" where
  "float_times (Finite q) k = Finite (q * of_int k)"
| "float_times x k = x"

fun int_of_float :: "pyfloat \<Rightarrow> py_error + int" where
  "int_of_float (Finite q) = Inr (if 0 \<le> q then \<lfloor>q\<rfloor> else \<lceil>q\<rceil>)"
| "int_of_float NaN = Inl ValueError"
| "int_of_float PosInf = Inl OverflowError"
| "int_of_float NegInf = Inl OverflowError"

text \<open>The truth value Python gives a JSON value in \<open>if daughter_batch[c]\<close>.\<close>

fun truthy :: "json \<Rightarrow> bool" where
  "truthy JNull = False"
| "truthy (JBool b) = b"
| "truthy (JInt i) = (i \<noteq> 0)"
| "truthy (JStr s) = (s \<noteq> [])"
| "truthy (JList xs) = (xs \<noteq> [])"
| "truthy (JObj members) = (members \<noteq> [])"

text \<open>
  \<open>fields['daughters']\<close>: KeyError when the record has no such field, TypeError when the
  record is no object. The comprehension of lines 281 to 283 does it for every record of
  every graph.
\<close>

definition get_daughters :: "json \<Rightarrow> py_error + json" where
  "get_daughters flds =
     (case flds of
        JObj members \<Rightarrow> (case map_of (rev members) ''daughters'' of None \<Rightarrow> Inl KeyError | Some d \<Rightarrow> Inr d)
      | _ \<Rightarrow> Inl TypeError)"

fun daughters_of_tracks :: "(int \<times> json) list \<Rightarrow> py_error + (int \<times> json) list" where
  "daughters_of_tracks [] = Inr []"
| "daughters_of_tracks ((cell, flds) # rest) =
     (case get_daughters flds of
        Inl e \<Rightarrow> Inl e
      | Inr d \<Rightarrow> (case daughters_of_tracks rest of Inl e \<Rightarrow> Inl e | Inr ds \<Rightarrow> Inr ((cell, d) # ds)))"

fun daughters_of_lineages :: "(int \<times> json) list list \<Rightarrow> py_error + (int \<times> json) list list" where
  "daughters_of_lineages [] = Inr []"
| "daughters_of_lineages (tracks # rest) =
     (case daughters_of_tracks tracks of
        Inl e \<Rightarrow> Inl e
      | Inr d \<Rightarrow> (case daughters_of_lineages rest of Inl e \<Rightarrow> Inl e | Inr ds \<Rightarrow> Inr (d # ds)))"

text \<open>Walking the value under \<open>lineages\<close>: an unconverted empty document has no element.\<close>

fun graphs_of :: "lineages_value \<Rightarrow> (int \<times> json) list list" where
  "graphs_of (Graphs gs) = gs"
| "graphs_of (Unconverted j) = []"

text \<open>
  The frames \<open>for frame in y[batch]\<close> walks through, each as the list of its values:
  \<open>y[batch]\<close> needs the batch index in range, and walking it needs a second axis.
\<close>

definition frames_of :: "ndarray \<Rightarrow> nat \<Rightarrow> int list list" where
  "frames_of y batch =
     (let s0 = prod_list (tl (shape y)); s1 = prod_list (drop 2 (shape y))
      in map (\<lambda>f. map (\<lambda>k. data y ! (batch * s0 + f * s1 + k)) [0..<s1]) [0..<shape y ! 1])"

definition batch_frames :: "ndarray \<Rightarrow> nat \<Rightarrow> py_error + int list list" where
  "batch_frames y batch =
     (if shape y = [] \<or> shape y ! 0 \<le> batch then Inl IndexError
      else if length (shape y) = 1 then Inl TypeError
      else Inr (frames_of y batch))"

text \<open>
  The first loop (source lines 293 to 299): per batch item the mean over its frames of
  \<open>len(np.unique(frame)) - 1\<close>.
\<close>

fun density_loop :: "ndarray \<Rightarrow> nat list \<Rightarrow> pyfloat list \<Rightarrow> py_error + pyfloat list" where
  "density_loop y [] avg_cells_in_frame = Inr avg_cells_in_frame"
| "density_loop y (batch # rest) avg_cells_in_frame =
     (case batch_frames y batch of
        Inl e \<Rightarrow> Inl e
      | Inr frames \<Rightarrow>
          density_loop y rest
            (avg_cells_in_frame @
               [np_average_ints (map (\<lambda>frame. int (length (np_unique frame)) - 1) frames)]))"

text \<open>
  The second loop (lines 306 to 319): per batch item the number of tracks, the number of
  tracks whose daughters value is true, and for every track the number of frames of the
  tracked array that hold its id.
\<close>

fun frame_counts_loop :: "ndarray \<Rightarrow> nat \<Rightarrow> int list \<Rightarrow> int list \<Rightarrow> py_error + int list" where
  "frame_counts_loop y batch [] frame_counts = Inr frame_counts"
| "frame_counts_loop y batch (cell_id # rest) frame_counts =
     (case batch_frames y batch of
        Inl e \<Rightarrow> Inl e
      | Inr frames \<Rightarrow>
          frame_counts_loop y batch rest
            (frame_counts @ [int (length (filter (\<lambda>frame. cell_id \<in> set (np_unique frame)) frames))]))"

fun division_loop ::
  "ndarray \<Rightarrow> (nat \<times> (int \<times> json) list) list \<Rightarrow> int \<times> int \<times> pyfloat list \<Rightarrow>
   py_error + (int \<times> int \<times> pyfloat list)" where
  "division_loop y [] acc = Inr acc"
| "division_loop y ((batch, daughter_batch) # rest) (total_tracks, total_divisions, avgs) =
     (let num_tracks_in_batch = int (length daughter_batch);
          num_div_in_batch = int (length (filter (\<lambda>(c, d). truthy d) daughter_batch))
      in case frame_counts_loop y batch (map fst daughter_batch) [] of
           Inl e \<Rightarrow> Inl e
         | Inr frame_counts \<Rightarrow>
             division_loop y rest
               (total_tracks + num_tracks_in_batch, total_divisions + num_div_in_batch,
                avgs @ [np_average_ints frame_counts]))"

text \<open>
  \<open>trks_stats\<close> has no \<open>return\<close>: a call that does not raise returns None, the unit
  value here, and its report is the lines it printed.
\<close>

definition print_lines :: "world \<Rightarrow> io_event list \<Rightarrow> world" where
  "print_lines w ls = w\<lparr>events := events w @ ls\<rparr>"

definition trks_stats :: "world \<Rightarrow> string \<Rightarrow> world \<times> (py_error + unit)" where
  "trks_stats w filename =
     (let ext = str_lower (snd (splitext filename))
      in if ext \<noteq> ''.trks'' \<and> ext \<noteq> ''.trk'' then (w, Inl ValueError)
         else (case load_trks w filename of
            (w1, Inl e) \<Rightarrow> (w1, Inl e)
          | (w1, Inr training_data) \<Rightarrow>
         (case daughters_of_lineages (graphs_of (trks_lineages training_data)) of
            Inl e \<Rightarrow> (w1, Inl e)
          | Inr daughters \<Rightarrow>
         (let X = trks_X training_data; y = trks_y training_data;
              w2 = print_lines w1
                [Printed ''Dataset Statistics: '' NoValue,
                 Printed ''Image data shape: '' (ShapeValue (shape X)),
                 Printed ''Number of lineages (should equal batch size): ''
                   (IntValue (int (length (graphs_of (trks_lineages training_data)))))]
          in if length (shape X) < 4 then (w2, Inl IndexError)
             else if shape y = [] then (w2, Inl IndexError)
             else (case density_loop y [0..<shape y ! 0] [] of
                Inl e \<Rightarrow> (w2, Inl e)
              | Inr avg_cells_in_frame \<Rightarrow>
             (let frame_area = shape X ! 2 * shape X ! 3;
                  avg_cells_per_sq_pixel = float_div (np_average avg_cells_in_frame) frame_area
              in case division_loop y (zip [0..<length daughters] daughters) (0, 0, []) of
                   Inl e \<Rightarrow> (w2, Inl e)
                 | Inr (total_tracks, total_divisions, avg_frame_counts_in_batches) \<Rightarrow>
                (let w3 = print_lines w2
                       [Printed ''Total number of unique tracks (cells)      - '' (IntValue total_tracks),
                        Printed ''Total number of divisions                  - '' (IntValue total_divisions),
                        Printed ''Average cell density (cells/100 sq pixels) - ''
                          (FloatValue (float_times avg_cells_per_sq_pixel 100))]
                 in case int_of_float (np_average avg_frame_counts_in_batches) of
                      Inl e \<Rightarrow> (w3, Inl e)
                    | Inr n \<Rightarrow>
                        (print_lines w3
                           [Printed ''Average number of frames per track         - '' (IntValue n)],
                         Inr ()))))))))"

section \<open>Notions used to state and prove the properties\<close>

text \<open>
  The position of a label in the ascending list of its frame's labels, and the value the
  inner loop leaves at a pixel that held \<open>old\<close>.
\<close>

fun index_of :: "int list \<Rightarrow> int \<Rightarrow> nat" where
  "index_of [] x = 0"
| "index_of (c # cs) x = (if c = x then 0 else Suc (index_of cs x))"

definition new_value :: "int list \<Rightarrow> int \<Rightarrow> int \<Rightarrow> int \<Rightarrow> int" where
  "new_value cells uid old new = (if old \<in> set cells then uid + int (index_of cells old) else new)"

text \<open>The frame a flat position belongs to (its coordinate on the time axis).\<close>

definition frame_of :: "string \<Rightarrow> nat list \<Rightarrow> nat \<Rightarrow> nat" where
  "frame_of data_format shp i =
     (if data_format = ''channels_first'' then (i div prod_list (drop 2 shp)) mod (shp ! 1)
      else i div prod_list (tl shp))"

text \<open>The counter when the second loop reaches frame \<open>f\<close> of the list of frames.\<close>

fun start_id :: "(nat \<Rightarrow> int list) \<Rightarrow> int \<Rightarrow> nat list \<Rightarrow> nat \<Rightarrow> int" where
  "start_id U uid [] f = uid"
| "start_id U uid (g # gs) f = (if g = f then uid else start_id U (uid + int (length (U g))) gs f)"

text \<open>
  The labels of a frame as the first loop collects them, the number of labels in the
  frames before \<open>f\<close>, the starting id, and the rank of a labelled pixel in the order in
  which ids are handed out.
\<close>

definition frame_labels :: "string \<Rightarrow> ndarray \<Rightarrow> nat \<Rightarrow> int list" where
  "frame_labels data_format y f = filter (\<lambda>c. c \<noteq> 0) (np_unique (frame_values data_format y f))"

definition label_offset :: "string \<Rightarrow> ndarray \<Rightarrow> nat \<Rightarrow> nat" where
  "label_offset data_format y f = (\<Sum>g<f. length (frame_labels data_format y g))"

definition first_uid :: "string \<Rightarrow> ndarray \<Rightarrow> int option \<Rightarrow> int" where
  "first_uid data_format y uid =
     (case uid of None \<Rightarrow> int (label_offset data_format y (shape y ! time_axis data_format)) + 1
                | Some u \<Rightarrow> u)"


text \<open>The array a call returns, and the array at an address after the call.\<close>

definition returned_array :: "py_error + (store \<times> nat) \<Rightarrow> ndarray option" where
  "returned_array r = (case r of Inl e \<Rightarrow> None | Inr (s', a) \<Rightarrow> arrays s' a)"


text \<open>
  Scenario A: two frames of 4 by 4 pixels, labels 1 and 2 in the first, 1 and 3 in the
  second, the caller's array at address 0.
\<close>

definition scenario_A :: ndarray where
  "scenario_A = \<lparr>shape = [2, 4, 4],
     data = [1,1,0,0, 1,1,0,0, 0,0,2,2, 0,0,2,0,
             0,1,1,0, 0,1,1,0, 3,3,0,0, 3,0,0,0]\<rparr>"

definition scenario_A_store :: store where
  "scenario_A_store = \<lparr>arrays = [0 \<mapsto> scenario_A], next_addr = 1\<rparr>"

text \<open>
  The product the estimator divides by the probability, for one batch item, and two small
  tensors: one without frames, one with a single frame of two pixels.
\<close>

definition non_self_pairings :: "string \<Rightarrow> ndarray \<Rightarrow> nat \<Rightarrow> int" where
  "non_self_pairings data_format y b =
     (sum_list (cells_per_image data_format y b) div int (shape y ! zaxis data_format) - 1) *
       int (shape y ! zaxis data_format) *
       fold max (tl (cells_per_image data_format y b)) (hd (cells_per_image data_format y b))"


definition two_pixels :: ndarray where
  "two_pixels = \<lparr>shape = [1, 1, 1, 2, 1], data = [0, 1]\<rparr>"

text \<open>
  A world without files, two Lineage Graphs with integer keys, a tensor of two batch items
  with two frames each, and a world whose only file is an archive that holds the two
  arrays under a name with another extension.
\<close>

definition empty_world :: world where
  "empty_world = \<lparr>files = Map.empty, events = []\<rparr>"

definition two_lineages :: "(int \<times> json) list list" where
  "two_lineages =
     [[(1, JObj [(''daughters'', JList [JInt 2, JInt 3])]), (2, JObj [(''daughters'', JList [])]),
       (-3, JObj [(''daughters'', JList [])])],
      [(10, JObj [(''daughters'', JList [JInt 11])])]]"

definition two_batches :: ndarray where
  "two_batches = \<lparr>shape = [2, 2, 1, 2, 1], data = [0, 1, 2, 3, 0, 10, 0, 0]\<rparr>"

definition untyped_world :: world where
  "untyped_world =
     \<lparr>files = [''data.tar'' \<mapsto> Tar [(''raw.npy'', Npy two_batches), (''tracked.npy'', Npy two_batches)]],
      events = []\<rparr>"
















section \<open>Properties of the Label Relabeler\<close>

subsection \<open>The inner loop and the write-back\<close>





lemma assign_cells_eq:
  "length y_new = length y_frame \<Longrightarrow> distinct cells \<Longrightarrow>
   assign_cells y_frame cells y_new uid =
     (map2 (new_value cells uid) y_frame y_new, uid + int (length cells))"
proof (induction cells arbitrary: y_new uid)
  case Nil
  then show ?case by (intro prod_eqI nth_equalityI) (auto simp: new_value_def)
next
  case (Cons c cs)
  let ?y1 = "map2 (\<lambda>old new. if old = c then uid else new) y_frame y_new"
  have len: "length ?y1 = length y_frame" using Cons.prems by simp
  have "assign_cells y_frame (c # cs) y_new uid = assign_cells y_frame cs ?y1 (uid + 1)" by simp
  also have "\<dots> = (map2 (new_value cs (uid + 1)) y_frame ?y1, uid + 1 + int (length cs))"
    using Cons.IH[OF len] Cons.prems by simp
  also have "map2 (new_value cs (uid + 1)) y_frame ?y1 = map2 (new_value (c # cs) uid) y_frame y_new"
    using Cons.prems by (intro nth_equalityI) (auto simp: new_value_def)
  finally show ?case by simp
qed

lemma scatter_length:
  "length (fold (\<lambda>(p, v) d. d[p := v]) pvs d) = length d"
  by (induction pvs arbitrary: d) auto

lemma scatter_other:
  "i \<notin> fst ` set pvs \<Longrightarrow> fold (\<lambda>(p, v) d. d[p := v]) pvs d ! i = d ! i"
  by (induction pvs arbitrary: d) auto

lemma scatter_hit:
  "distinct (map fst pvs) \<Longrightarrow> (p, v) \<in> set pvs \<Longrightarrow> p < length d \<Longrightarrow>
   fold (\<lambda>(p, v) d. d[p := v]) pvs d ! p = v"
proof (induction pvs arbitrary: d)
  case Nil
  then show ?case by simp
next
  case (Cons a pvs)
  show ?case
  proof (cases "a = (p, v)")
    case True
    then have "p \<notin> fst ` set pvs" using Cons.prems(1) by auto
    then show ?thesis using True Cons.prems(3) by (simp add: scatter_other)
  next
    case False
    then have "(p, v) \<in> set pvs" using Cons.prems(2) by auto
    then show ?thesis using Cons.IH[of "d[fst a := snd a]"] Cons.prems by (cases a) auto
  qed
qed

subsection \<open>Frames partition the positions\<close>

lemma mem_offset: "i \<in> set (map (\<lambda>k. a + k) [0..<s]) \<longleftrightarrow> (\<exists>k<s. i = a + k)"
  by (simp only: set_map set_upt image_iff Bex_def atLeastLessThan_iff) auto

lemma mem_concat_upt: "i \<in> set (concat (map h [0..<C])) \<longleftrightarrow> (\<exists>c<C. i \<in> set (h c))"
  by auto

lemma mem_offset2:
  "i \<in> set (concat (map (\<lambda>c. map (\<lambda>k. g c + k) [0..<s]) [0..<C])) \<longleftrightarrow> (\<exists>c<C. \<exists>k<s. i = g c + k)"
  by (simp only: mem_concat_upt mem_offset)

lemma concat_map_product:
  "concat (map (\<lambda>c. map (g c) ys) xs) = map (\<lambda>(c, k). g c k) (List.product xs ys)"
  by (induction xs) auto

lemma decomp_unique:
  fixes s1 T :: nat
  assumes "k < s1" "k' < s1" "f < T" "c * (T * s1) + f * s1 + k = c' * (T * s1) + f * s1 + k'"
  shows "c = c' \<and> k = k'"
proof -
  have e: "(c * T + f) * s1 + k = (c' * T + f) * s1 + k'"
    using assms(4) by (simp add: algebra_simps)
  have "((c * T + f) * s1 + k) mod s1 = k" "((c' * T + f) * s1 + k') mod s1 = k'"
    using assms(1,2) by simp_all
  then have k: "k = k'" using e by (simp only:)
  have "((c * T + f) * s1 + k) div s1 = c * T + f" "((c' * T + f) * s1 + k') div s1 = c' * T + f"
    using assms(1,2) by simp_all
  then have "c * T + f = c' * T + f" using e by (simp only:)
  then have "c = c'" using assms(3) by simp
  with k show ?thesis by simp
qed

lemma distinct_offsets: "distinct (map (\<lambda>k. a + k) [0..<s::nat])"
  by (simp add: distinct_map inj_on_def)

lemma frame_positions_distinct:
  assumes "time_axis data_format < length shp" "f < shp ! time_axis data_format"
  shows "distinct (frame_positions data_format shp f)"
proof (cases "data_format = ''channels_first''")
  case False
  then have "frame_positions data_format shp f = map (\<lambda>k. f * prod_list (tl shp) + k) [0..<prod_list (tl shp)]"
    by (simp add: frame_positions_def Let_def)
  then show ?thesis by (simp only: distinct_offsets)
next
  case True
  then obtain C T rest where shp: "shp = C # T # rest"
    using assms(1) by (cases shp; cases "tl shp") (auto simp: time_axis_def)
  have fT: "f < T" using assms(2) True shp by (simp add: time_axis_def)
  let ?s = "prod_list rest"
  let ?g = "\<lambda>(c, k). c * (T * ?s) + f * ?s + k"
  have "inj_on ?g (set (List.product [0..<C] [0..<?s]))"
  proof (rule inj_onI)
    fix x y assume a: "x \<in> set (List.product [0..<C] [0..<?s])" "y \<in> set (List.product [0..<C] [0..<?s])"
      "?g x = ?g y"
    obtain c k where x: "x = (c, k)" by (cases x)
    obtain c' k' where y: "y = (c', k')" by (cases y)
    have "k < ?s" "k' < ?s" using a(1,2) x y by simp_all
    then have "c = c' \<and> k = k'" using decomp_unique[OF _ _ fT, of k ?s k' c c'] a(3) x y by simp
    then show "x = y" using x y by simp
  qed
  moreover have "frame_positions data_format shp f = map ?g (List.product [0..<C] [0..<?s])"
    using True shp by (simp add: frame_positions_def Let_def concat_map_product)
  ultimately show ?thesis
    by (simp only: distinct_map distinct_product distinct_upt simp_thms)
qed

lemma frame_positions_iff:
  assumes "time_axis data_format < length shp" "f < shp ! time_axis data_format"
  shows "i \<in> set (frame_positions data_format shp f) \<longleftrightarrow>
         i < prod_list shp \<and> frame_of data_format shp i = f"
proof (cases "data_format = ''channels_first''")
  case False
  then obtain T rest where shp: "shp = T # rest"
    using assms(1) by (cases shp) (auto simp: time_axis_def)
  have fT: "f < T" using assms(2) False shp by (simp add: time_axis_def)
  let ?s = "prod_list rest"
  have "(\<exists>k<?s. i = f * ?s + k) \<longleftrightarrow> i < T * ?s \<and> i div ?s = f"
  proof
    assume "\<exists>k<?s. i = f * ?s + k"
    then obtain k where k: "k < ?s" "i = f * ?s + k" by blast
    have "i < (f + 1) * ?s" using k by simp
    also have "\<dots> \<le> T * ?s" using fT by (intro mult_le_mono1) simp
    finally show "i < T * ?s \<and> i div ?s = f" using k by simp
  next
    assume a: "i < T * ?s \<and> i div ?s = f"
    then have "0 < ?s" by (cases "?s") auto
    then have "i mod ?s < ?s" by simp
    moreover have "i = f * ?s + i mod ?s" using a by (metis div_mult_mod_eq)
    ultimately show "\<exists>k<?s. i = f * ?s + k" by blast
  qed
  moreover have "frame_positions data_format shp f = map (\<lambda>k. f * ?s + k) [0..<?s]"
    using False shp by (simp add: frame_positions_def Let_def)
  then have "i \<in> set (frame_positions data_format shp f) \<longleftrightarrow> (\<exists>k<?s. i = f * ?s + k)"
    by (simp only: mem_offset)
  ultimately show ?thesis
    using False shp by (simp add: frame_of_def)
next
  case True
  then obtain C T rest where shp: "shp = C # T # rest"
    using assms(1) by (cases shp; cases "tl shp") (auto simp: time_axis_def)
  have fT: "f < T" using assms(2) True shp by (simp add: time_axis_def)
  let ?s = "prod_list rest"
  have "(\<exists>c<C. \<exists>k<?s. i = c * (T * ?s) + f * ?s + k) \<longleftrightarrow> i < C * (T * ?s) \<and> (i div ?s) mod T = f"
  proof
    assume "\<exists>c<C. \<exists>k<?s. i = c * (T * ?s) + f * ?s + k"
    then obtain c k where ck: "c < C" "k < ?s" "i = c * (T * ?s) + f * ?s + k" by blast
    have i: "i = (c * T + f) * ?s + k" using ck by (simp add: algebra_simps)
    have d: "i div ?s = c * T + f" using i ck by simp
    have "c * T + f < (c + 1) * T" using fT by simp
    also have "\<dots> \<le> C * T" using ck(1) by (intro mult_le_mono1) simp
    finally have "c * T + f < C * T" .
    then have "(c * T + f + 1) * ?s \<le> C * T * ?s" by (intro mult_le_mono1) simp
    moreover have "i < (c * T + f + 1) * ?s" using i ck by simp
    ultimately have "i < C * (T * ?s)" by (simp add: mult.assoc)
    then show "i < C * (T * ?s) \<and> (i div ?s) mod T = f" using d fT by simp
  next
    assume a: "i < C * (T * ?s) \<and> (i div ?s) mod T = f"
    then have s: "0 < ?s" by (cases "?s") auto
    let ?q = "i div ?s"
    have "?q < C * T" using a s by (simp add: less_mult_imp_div_less mult.assoc)
    then have c: "?q div T < C" using fT by (simp add: less_mult_imp_div_less)
    have "?q = (?q div T) * T + f" using a by (metis div_mult_mod_eq)
    then have "i = ((?q div T) * T + f) * ?s + i mod ?s" by (metis div_mult_mod_eq)
    then have "i = (?q div T) * (T * ?s) + f * ?s + i mod ?s" by (simp add: algebra_simps)
    moreover have "i mod ?s < ?s" using s by simp
    ultimately show "\<exists>c<C. \<exists>k<?s. i = c * (T * ?s) + f * ?s + k" using c by blast
  qed
  moreover have "frame_positions data_format shp f =
      concat (map (\<lambda>c. map (\<lambda>k. (c * (T * ?s) + f * ?s) + k) [0..<?s]) [0..<C])"
    using True shp by (simp add: frame_positions_def Let_def)
  then have "i \<in> set (frame_positions data_format shp f) \<longleftrightarrow>
      (\<exists>c<C. \<exists>k<?s. i = c * (T * ?s) + f * ?s + k)"
    by (simp only: mem_offset2)
  ultimately show ?thesis
    using True shp by (simp add: frame_of_def)
qed

lemma frame_of_less:
  assumes "time_axis data_format < length shp" "i < prod_list shp"
  shows "frame_of data_format shp i < shp ! time_axis data_format"
proof (cases "data_format = ''channels_first''")
  case False
  then obtain T rest where shp: "shp = T # rest"
    using assms(1) by (cases shp) (auto simp: time_axis_def)
  then show ?thesis using False assms(2)
    by (simp add: frame_of_def time_axis_def less_mult_imp_div_less mult.commute)
next
  case True
  then obtain C T rest where shp: "shp = C # T # rest"
    using assms(1) by (cases shp; cases "tl shp") (auto simp: time_axis_def)
  have "0 < T" using assms(2) shp by (cases T) auto
  then show ?thesis using True shp by (simp add: frame_of_def time_axis_def)
qed

subsection \<open>The loop over the frames\<close>

lemma set_frame_shape: "shape (set_frame data_format y f vals) = shape y"
  by (simp add: set_frame_def)

lemma set_frame_length: "length (data (set_frame data_format y f vals)) = length (data y)"
  by (simp add: set_frame_def scatter_length)

lemma frame_step:
  assumes wf: "length (data y) = prod_list (shape y)"
    and ax: "time_axis data_format < length (shape y)"
    and f: "f < shape y ! time_axis data_format"
    and d: "distinct cells"
    and i: "i < length (data y)"
  defines "y_frame \<equiv> frame_values data_format y f"
  shows "data (set_frame data_format y f
            (fst (assign_cells y_frame cells (replicate (length y_frame) 0) uid))) ! i =
         (if frame_of data_format (shape y) i = f then new_value cells uid (data y ! i) 0
          else data y ! i)"
proof -
  let ?ps = "frame_positions data_format (shape y) f"
  let ?vals = "map2 (new_value cells uid) y_frame (replicate (length y_frame) 0)"
  have a: "fst (assign_cells y_frame cells (replicate (length y_frame) 0) uid) = ?vals"
    using d by (simp add: assign_cells_eq)
  have len: "length ?vals = length ?ps" by (simp add: y_frame_def frame_values_def)
  have dist: "distinct (map fst (zip ?ps ?vals))" using len frame_positions_distinct[OF ax f] by simp
  have mem: "i \<in> set ?ps \<longleftrightarrow> frame_of data_format (shape y) i = f"
    using frame_positions_iff[OF ax f, of i] i wf by simp
  show ?thesis
  proof (cases "frame_of data_format (shape y) i = f")
    case True
    then obtain k where k: "k < length ?ps" "?ps ! k = i" using mem by (auto simp: in_set_conv_nth)
    have v: "?vals ! k = new_value cells uid (data y ! i) 0"
      using k by (simp add: y_frame_def frame_values_def)
    have "(i, ?vals ! k) \<in> set (zip ?ps ?vals)"
      using k len by (auto simp: set_zip)
    then have "fold (\<lambda>(p, v) d. d[p := v]) (zip ?ps ?vals) (data y) ! i = ?vals ! k"
      using scatter_hit[OF dist _ i] by blast
    then show ?thesis using True v a by (simp add: set_frame_def)
  next
    case False
    then have "i \<notin> fst ` set (zip ?ps ?vals)" using mem by (auto dest: set_zip_leftD)
    then show ?thesis using False a by (simp add: set_frame_def scatter_other)
  qed
qed

lemma relabel_frames_char:
  assumes "length (data y) = prod_list (shape y)"
    and "time_axis data_format < length (shape y)"
    and "\<forall>f\<in>set fs. f < shape y ! time_axis data_format \<and> distinct (U f)"
    and "distinct fs"
  shows "shape (fst (relabel_frames data_format (map (\<lambda>f. (f, U f)) fs) y uid)) = shape y \<and>
         length (data (fst (relabel_frames data_format (map (\<lambda>f. (f, U f)) fs) y uid))) = length (data y) \<and>
         (\<forall>i<length (data y).
            data (fst (relabel_frames data_format (map (\<lambda>f. (f, U f)) fs) y uid)) ! i =
              (if frame_of data_format (shape y) i \<in> set fs
               then new_value (U (frame_of data_format (shape y) i))
                      (start_id U uid fs (frame_of data_format (shape y) i)) (data y ! i) 0
               else data y ! i))"
  using assms
proof (induction fs arbitrary: y uid)
  case Nil
  then show ?case by simp
next
  case (Cons f fs)
  let ?yf = "frame_values data_format y f"
  let ?r = "assign_cells ?yf (U f) (replicate (length ?yf) 0) uid"
  let ?y1 = "set_frame data_format y f (fst ?r)"
  have f: "f < shape y ! time_axis data_format" and d: "distinct (U f)" using Cons.prems(3) by simp_all
  have r2: "snd ?r = uid + int (length (U f))" using d by (simp add: assign_cells_eq)
  have step: "relabel_frames data_format (map (\<lambda>f. (f, U f)) (f # fs)) y uid =
        relabel_frames data_format (map (\<lambda>f. (f, U f)) fs) ?y1 (uid + int (length (U f)))"
    using r2 by (simp add: Let_def case_prod_unfold)
  have sh1: "shape ?y1 = shape y" by (rule set_frame_shape)
  have len1: "length (data ?y1) = length (data y)" by (rule set_frame_length)
  have IH: "shape (fst (relabel_frames data_format (map (\<lambda>f. (f, U f)) fs) ?y1 (uid + int (length (U f))))) = shape ?y1 \<and>
         length (data (fst (relabel_frames data_format (map (\<lambda>f. (f, U f)) fs) ?y1 (uid + int (length (U f)))))) = length (data ?y1) \<and>
         (\<forall>i<length (data ?y1).
            data (fst (relabel_frames data_format (map (\<lambda>f. (f, U f)) fs) ?y1 (uid + int (length (U f))))) ! i =
              (if frame_of data_format (shape ?y1) i \<in> set fs
               then new_value (U (frame_of data_format (shape ?y1) i))
                      (start_id U (uid + int (length (U f))) fs (frame_of data_format (shape ?y1) i)) (data ?y1 ! i) 0
               else data ?y1 ! i))"
    using Cons.prems by (intro Cons.IH) (simp_all add: sh1 len1)
  have pt: "data ?y1 ! i = (if frame_of data_format (shape y) i = f then new_value (U f) uid (data y ! i) 0
          else data y ! i)" if "i < length (data y)" for i
    using frame_step[OF Cons.prems(1,2) f d that] by simp
  have nf: "f \<notin> set fs" using Cons.prems(4) by simp
  show ?case
    unfolding step using IH nf by (auto simp: sh1 len1 pt)
qed

lemma frame_labels_distinct: "distinct (frame_labels data_format y f)"
  by (simp add: frame_labels_def np_unique_def)

lemma frame_labels_sorted: "sorted (frame_labels data_format y f)"
  by (simp add: frame_labels_def np_unique_def sorted_filter[where f = "\<lambda>x. x", simplified])

lemma frame_labels_set: "set (frame_labels data_format y f) = set (frame_values data_format y f) - {0}"
  by (auto simp: frame_labels_def np_unique_def)


lemma all_uniques_eq: "all_uniques data_format y n = map (frame_labels data_format y) [0..<n]"
  by (simp add: all_uniques_def frame_labels_def)

lemma zip_map_same: "zip xs (map g xs) = map (\<lambda>x. (x, g x)) xs"
  by (induction xs) auto

lemma sum_list_upt_int: "sum_list (map (\<lambda>x. int (g x)) [0..<n]) = int (\<Sum>k<n. g k)"
  by (induction n) auto

lemma start_id_upt:
  "a \<le> f \<Longrightarrow> f < b \<Longrightarrow> start_id U uid [a..<b] f = uid + int (\<Sum>g = a..<f. length (U g))"
proof (induction "f - a" arbitrary: a uid)
  case 0
  then have "a = f" by simp
  then show ?case using 0 by (simp add: upt_rec[of f b])
next
  case (Suc n)
  then have lt: "a < f" by simp
  then have "start_id U uid [a..<b] f = start_id U (uid + int (length (U a))) [Suc a..<b] f"
    using Suc.prems by (simp add: upt_rec[of a b])
  also have "\<dots> = uid + int (length (U a)) + int (\<Sum>g = Suc a..<f. length (U g))"
    using Suc lt by (intro Suc.hyps) simp_all
  also have "\<dots> = uid + int (\<Sum>g = a..<f. length (U g))"
    using lt by (simp add: sum.atLeast_Suc_lessThan)
  finally show ?case .
qed

lemma relabel_volume_char:
  assumes wf: "wf_ndarray y" and ax: "time_axis data_format < length (shape y)"
  shows "\<exists>out. relabel_volume y uid data_format = Inr out \<and> shape out = shape y \<and>
           length (data out) = length (data y) \<and>
           (\<forall>i<length (data y). data out ! i =
              new_value (frame_labels data_format y (frame_of data_format (shape y) i))
                (first_uid data_format y uid + int (label_offset data_format y (frame_of data_format (shape y) i)))
                (data y ! i) 0)"
proof -
  let ?T = "shape y ! time_axis data_format"
  let ?U = "frame_labels data_format y"
  let ?u0 = "first_uid data_format y uid"
  let ?out = "fst (relabel_frames data_format (map (\<lambda>f. (f, ?U f)) [0..<?T]) y ?u0)"
  have u0: "(case uid of None \<Rightarrow> sum_list (map (\<lambda>x. int (length x)) (all_uniques data_format y ?T)) + 1
                                  | Some u \<Rightarrow> u) = ?u0"
    by (simp add: first_uid_def label_offset_def all_uniques_eq comp_def sum_list_upt_int split: option.splits)
  have eq: "relabel_volume y uid data_format = Inr ?out"
    using ax unfolding relabel_volume_def Let_def u0 by (simp add: all_uniques_eq zip_map_same)
  have len: "length (data y) = prod_list (shape y)" using wf by (simp add: wf_ndarray_def)
  have pre: "\<forall>f\<in>set [0..<?T]. f < ?T \<and> distinct (?U f)" by (simp add: frame_labels_distinct)
  note ch = relabel_frames_char[OF len ax pre distinct_upt, of ?u0]
  have pt: "data ?out ! i = new_value (?U (frame_of data_format (shape y) i))
                (?u0 + int (label_offset data_format y (frame_of data_format (shape y) i)))
                (data y ! i) 0" if i: "i < length (data y)" for i
  proof -
    have fl: "frame_of data_format (shape y) i < ?T" using frame_of_less[OF ax] i len by simp
    then have "start_id ?U ?u0 [0..<?T] (frame_of data_format (shape y) i) =
        ?u0 + int (label_offset data_format y (frame_of data_format (shape y) i))"
      by (simp add: start_id_upt label_offset_def atLeast0LessThan)
    then show ?thesis using ch i fl by simp
  qed
  show ?thesis using eq ch pt by blast
qed

subsection \<open>Ids are handed out injectively\<close>










subsection \<open>The claims\<close>


lemma clean_up_annotations_result:
  assumes "arrays s y_ref = Some y" "relabel_volume y uid data_format = Inr out"
  shows "clean_up_annotations s y_ref uid data_format =
           Inr (\<lparr>arrays = (arrays s)(y_ref \<mapsto> out, next_addr s \<mapsto> out), next_addr = Suc (next_addr s)\<rparr>,
                next_addr s)"
  using assms by (simp add: clean_up_annotations_def alloc_def)







lemma frame_values_relabelled:
  assumes wf: "wf_ndarray y" and ax: "time_axis data_format < length (shape y)"
    and f: "f < shape y ! time_axis data_format"
    and o: "relabel_volume y uid data_format = Inr out"
  shows "frame_values data_format out f =
         map (\<lambda>v. new_value (frame_labels data_format y f)
                    (first_uid data_format y uid + int (label_offset data_format y f)) v 0)
             (frame_values data_format y f)"
proof -
  obtain out' where o': "relabel_volume y uid data_format = Inr out'" "shape out' = shape y"
      "\<forall>i<length (data y). data out' ! i =
              new_value (frame_labels data_format y (frame_of data_format (shape y) i))
                (first_uid data_format y uid + int (label_offset data_format y (frame_of data_format (shape y) i)))
                (data y ! i) 0"
    using relabel_volume_char[OF wf ax] by blast
  have eq: "out' = out" using o o'(1) by simp
  have n: "length (data y) = prod_list (shape y)" using wf by (simp add: wf_ndarray_def)
  have "data out ! p = new_value (frame_labels data_format y f)
                    (first_uid data_format y uid + int (label_offset data_format y f)) (data y ! p) 0"
    if "p \<in> set (frame_positions data_format (shape y) f)" for p
    using frame_positions_iff[OF ax f, of p] that n o'(3) eq by simp
  then show ?thesis using o'(2) eq by (simp add: frame_values_def)
qed

lemma sorted_distinct_eq:
  "sorted xs \<Longrightarrow> distinct xs \<Longrightarrow> set xs = set ys \<Longrightarrow> sorted ys \<Longrightarrow> distinct ys \<Longrightarrow> xs = (ys::int list)"
  using sorted_distinct_set_unique by blast

lemma frame_labels_eq:
  assumes "set (frame_values data_format y f) - {0} = set L" "sorted L" "distinct L"
  shows "frame_labels data_format y f = L"
  using sorted_distinct_eq[OF frame_labels_sorted frame_labels_distinct _ assms(2,3)] assms(1)
  by (simp add: frame_labels_set)

text \<open>
  Claim C3, amended. In Scenario A (two frames of 4 by 4 pixels, labels 1 and 2 in frame
  0, labels 1 and 3 in frame 1) the call without a starting id starts at 5: labels 1 and
  2 of frame 0 become 5 and 6, labels 1 and 3 of frame 1 become 7 and 8, and the
  background stays 0.
\<close>

theorem clean_up_annotations_scenario_A:
  assumes s: "arrays s y_ref = Some y"
    and shp: "shape y = [2, 4, 4]" and len: "length (data y) = 32"
    and f0: "set (frame_values ''channels_last'' y 0) - {0} = {1, 2}"
    and f1: "set (frame_values ''channels_last'' y 1) - {0} = {1, 3}"
  shows "\<exists>s' r out. clean_up_annotations s y_ref None ''channels_last'' = Inr (s', r) \<and>
           arrays s' r = Some out \<and> shape out = [2, 4, 4] \<and>
           frame_values ''channels_last'' out 0 =
             map (\<lambda>v. if v = 1 then 5 else if v = 2 then 6 else 0) (frame_values ''channels_last'' y 0) \<and>
           frame_values ''channels_last'' out 1 =
             map (\<lambda>v. if v = 1 then 7 else if v = 3 then 8 else 0) (frame_values ''channels_last'' y 1)"
proof -
  let ?fmt = "''channels_last''"
  have wf: "wf_ndarray y" using shp len by (simp add: wf_ndarray_def)
  have ax: "time_axis ?fmt < length (shape y)" using shp by (simp add: time_axis_def)
  have T: "shape y ! time_axis ?fmt = 2" using shp by (simp add: time_axis_def)
  obtain out where o: "relabel_volume y None ?fmt = Inr out" "shape out = shape y"
    using relabel_volume_char[OF wf ax] by blast
  have L0: "frame_labels ?fmt y 0 = [1, 2]" using f0 by (intro frame_labels_eq) simp_all
  have L1: "frame_labels ?fmt y 1 = [1, 3]" using f1 by (intro frame_labels_eq) simp_all
  have off0: "label_offset ?fmt y 0 = 0" by (simp add: label_offset_def)
  have off1: "label_offset ?fmt y 1 = 2" using L0 by (simp add: label_offset_def)
  have "label_offset ?fmt y 2 = 4" using L0 L1 by (simp add: label_offset_def numeral_2_eq_2)
  then have u0: "first_uid ?fmt y None = 5" using T by (simp add: first_uid_def)
  have v0: "frame_values ?fmt out 0 =
      map (\<lambda>v. if v = 1 then 5 else if v = 2 then 6 else 0) (frame_values ?fmt y 0)"
    using frame_values_relabelled[OF wf ax _ o(1), of 0] T L0 off0 u0 by (simp add: new_value_def)
  have v1: "frame_values ?fmt out 1 =
      map (\<lambda>v. if v = 1 then 7 else if v = 3 then 8 else 0) (frame_values ?fmt y 1)"
    using frame_values_relabelled[OF wf ax _ o(1), of 1] T L1 off1 u0 by (simp add: new_value_def)
  let ?s' = "\<lparr>arrays = (arrays s)(y_ref \<mapsto> out, next_addr s \<mapsto> out), next_addr = Suc (next_addr s)\<rparr>"
  show ?thesis
  proof (intro exI conjI)
    show "clean_up_annotations s y_ref None ?fmt = Inr (?s', next_addr s)"
      using clean_up_annotations_result[OF s o(1)] .
    show "arrays ?s' (next_addr s) = Some out" by simp
    show "shape out = [2, 4, 4]" using o(2) shp by simp
    show "frame_values ?fmt out 0 =
      map (\<lambda>v. if v = 1 then 5 else if v = 2 then 6 else 0) (frame_values ?fmt y 0)" by (rule v0)
    show "frame_values ?fmt out 1 =
      map (\<lambda>v. if v = 1 then 7 else if v = 3 then 8 else 0) (frame_values ?fmt y 1)" by (rule v1)
  qed
qed

lemma scenario_A_relabelled:
  "relabel_volume scenario_A None ''channels_last'' = Inr \<lparr>shape = [2, 4, 4],
     data = [5,5,0,0, 5,5,0,0, 0,0,6,6, 0,0,6,0,
             0,7,7,0, 0,7,7,0, 8,8,0,0, 8,0,0,0]\<rparr>"
  by code_simp

lemma scenario_A_frames:
  "frame_values ''channels_last'' scenario_A 0 = [1,1,0,0, 1,1,0,0, 0,0,2,2, 0,0,2,0]"
  "frame_values ''channels_last'' scenario_A 1 = [0,1,1,0, 0,1,1,0, 3,3,0,0, 3,0,0,0]"
  by code_simp+

lemma scenario_A_call:
  "clean_up_annotations scenario_A_store 0 None ''channels_last'' =
     Inr (\<lparr>arrays = (arrays scenario_A_store)(0 \<mapsto> \<lparr>shape = [2, 4, 4],
     data = [5,5,0,0, 5,5,0,0, 0,0,6,6, 0,0,6,0,
             0,7,7,0, 0,7,7,0, 8,8,0,0, 8,0,0,0]\<rparr>, next_addr scenario_A_store \<mapsto> \<lparr>shape = [2, 4, 4],
     data = [5,5,0,0, 5,5,0,0, 0,0,6,6, 0,0,6,0,
             0,7,7,0, 0,7,7,0, 8,8,0,0, 8,0,0,0]\<rparr>), next_addr = Suc (next_addr scenario_A_store)\<rparr>,
                next_addr scenario_A_store)"
  by (rule clean_up_annotations_result[OF _ scenario_A_relabelled]) (simp add: scenario_A_store_def)

text \<open>
  Claim C3 as stated (ids 1 and 2, then 3 and 4) fails: on a volume of Scenario A the
  returned array holds 5, 6, 7 and 8.
\<close>

theorem scenario_A_counterexample:
  "returned_array (clean_up_annotations scenario_A_store 0 None ''channels_last'') =
     Some \<lparr>shape = [2, 4, 4],
           data = [5,5,0,0, 5,5,0,0, 0,0,6,6, 0,0,6,0,
                   0,7,7,0, 0,7,7,0, 8,8,0,0, 8,0,0,0]\<rparr> \<and>
   returned_array (clean_up_annotations scenario_A_store 0 None ''channels_last'') \<noteq>
     Some \<lparr>shape = [2, 4, 4],
           data = [1,1,0,0, 1,1,0,0, 0,0,2,2, 0,0,2,0,
                   0,3,3,0, 0,3,3,0, 4,4,0,0, 4,0,0,0]\<rparr>"
  by (simp add: scenario_A_call returned_array_def)


lemma scenario_A_counts:
  "set (frame_values ''channels_last'' scenario_A 0) - {0} = {1, 2}"
  "set (frame_values ''channels_last'' scenario_A 1) - {0} = {1, 3}"
  by (simp_all only: scenario_A_frames) auto

text \<open>The amended claim at the volume of the counterexample.\<close>

theorem clean_up_annotations_scenario_A_witness:
  "arrays scenario_A_store 0 = Some scenario_A \<and> shape scenario_A = [2, 4, 4] \<and>
   length (data scenario_A) = 32 \<and>
   set (frame_values ''channels_last'' scenario_A 0) - {0} = {1, 2} \<and>
   set (frame_values ''channels_last'' scenario_A 1) - {0} = {1, 3} \<and>
   (\<exists>s' r out. clean_up_annotations scenario_A_store 0 None ''channels_last'' = Inr (s', r) \<and>
           arrays s' r = Some out \<and> shape out = [2, 4, 4] \<and>
           frame_values ''channels_last'' out 0 =
             map (\<lambda>v. if v = 1 then 5 else if v = 2 then 6 else 0) (frame_values ''channels_last'' scenario_A 0) \<and>
           frame_values ''channels_last'' out 1 =
             map (\<lambda>v. if v = 1 then 7 else if v = 3 then 8 else 0) (frame_values ''channels_last'' scenario_A 1))"
proof -
  have a: "arrays scenario_A_store 0 = Some scenario_A" by (simp add: scenario_A_store_def)
  have b: "shape scenario_A = [2, 4, 4]" "length (data scenario_A) = 32" by (simp_all add: scenario_A_def)
  show ?thesis
    using clean_up_annotations_scenario_A[OF a b scenario_A_counts] a b scenario_A_counts by simp
qed









section \<open>Properties of the Pair Sampling Estimator\<close>
















text \<open>
  Claim C6. The claim counts the distinct non-background labels of a frame; the code counts
  all distinct values, the background among them. On one frame that holds a background
  pixel and one cell, the code returns 4 where the estimator of the claim gives 0.
\<close>

theorem count_pairs_counts_background:
  "cells_per_image ''channels_last'' two_pixels 0 = [2] \<and>
   cells_per_image_spec ''channels_last'' two_pixels 0 = [1] \<and>
   count_pairs two_pixels (1 / 2) ''channels_last'' = Inr 4 \<and>
   count_pairs_spec two_pixels (1 / 2) ''channels_last'' = 0"
  by code_simp

section \<open>Properties of the Archive Codec\<close>

text \<open>The equation of \<open>digits\<close> is unfolded by hand.\<close>

declare digits.simps [simp del]






















text \<open>
  Claim C10. When the path names an archive that holds both arrays and its extension is
  neither \<open>.trk\<close> nor \<open>.trks\<close>, \<open>load_trks\<close> opens it, reads both arrays and raises
  UnboundLocalError: no result, and none of the errors of a missing or malformed member.
\<close>

theorem load_trks_other_extension_unbound:
  assumes "files w filename = Some (Tar members)"
    and "getmember members ''raw.npy'' = Inr (Npy raw)"
    and "getmember members ''tracked.npy'' = Inr (Npy tracked)"
    and "snd (splitext filename) \<noteq> ''.trks''" and "snd (splitext filename) \<noteq> ''.trk''"
  shows "load_trks w filename = (w\<lparr>events := events w @ [OpenRead filename]\<rparr>, Inl UnboundLocalError)"
proof -
  have "read_lineages members filename = Inl UnboundLocalError"
    using assms(4,5) by (simp add: read_lineages_def)
  then have "read_members members filename = Inl UnboundLocalError"
    using assms(2,3) by (simp add: read_members_def np_load_def)
  then show ?thesis using assms(1) by (simp add: load_trks_def)
qed

text \<open>
  Claim C5, amended. Both guards compare the lower-cased name: when the lower-cased path
  does not end in \<open>.trks\<close>, \<open>save_trks\<close> raises ValueError and the world is as before (no
  file written, nothing opened); when the lower-cased extension is neither \<open>.trks\<close> nor
  \<open>.trk\<close>, \<open>trks_stats\<close> raises ValueError and the world is as before (nothing opened,
  nothing printed).
\<close>

theorem extension_guards:
  "(\<not> endswith (str_lower filename) ''.trks'' \<longrightarrow>
      save_trks w filename lineages raw tracked = (w, Inl ValueError)) \<and>
   (str_lower (snd (splitext filename)) \<noteq> ''.trks'' \<and> str_lower (snd (splitext filename)) \<noteq> ''.trk'' \<longrightarrow>
      trks_stats w filename = (w, Inl ValueError))"
  by (simp add: save_trks_def trks_stats_def Let_def)

lemma concrete_extensions:
  "snd (splitext ''x.trks'') = ''.trks''"
  "snd (splitext ''data.tar'') = ''.tar''"
  "snd (splitext ''A.TRKS'') = ''.TRKS''"
  "snd (splitext ''A.TRK'') = ''.TRK''"
  "snd (splitext ''x.txt'') = ''.txt''"
  "snd (splitext ''.trks'') = []"
  by code_simp+

lemma concrete_guards:
  "\<not> endswith ''A.TRKS'' ''.trks''"
  "endswith (str_lower ''A.TRKS'') ''.trks''"
  "\<not> endswith (str_lower ''x.txt'') ''.trks''"
  "str_lower ''.TRK'' = ''.trk''"
  "str_lower ''.txt'' = ''.txt''"
  by code_simp+


text \<open>The theorem at the archive \<open>data.tar\<close>.\<close>

theorem load_trks_other_extension_unbound_witness:
  "snd (splitext ''data.tar'') = ''.tar'' \<and>
   load_trks untyped_world ''data.tar'' =
     (untyped_world\<lparr>events := events untyped_world @ [OpenRead ''data.tar'']\<rparr>, Inl UnboundLocalError)"
proof -
  let ?members = "[(''raw.npy'', Npy two_batches), (''tracked.npy'', Npy two_batches)]"
  have f: "files untyped_world ''data.tar'' = Some (Tar ?members)" by (simp add: untyped_world_def)
  have g: "getmember ?members ''raw.npy'' = Inr (Npy two_batches)"
    "getmember ?members ''tracked.npy'' = Inr (Npy two_batches)"
    by (simp_all add: getmember_def)
  have e: "snd (splitext ''data.tar'') \<noteq> ''.trks''" "snd (splitext ''data.tar'') \<noteq> ''.trk''"
    by (simp_all add: concrete_extensions)
  show ?thesis
    using load_trks_other_extension_unbound[OF f g e] concrete_extensions(2) by simp
qed

text \<open>
  Claim C5 as stated fails on upper-case names: \<open>A.TRKS\<close> does not end in \<open>.trks\<close>, yet
  \<open>save_trks\<close> writes the archive; the extension of \<open>A.TRK\<close> is neither \<open>.trk\<close> nor
  \<open>.trks\<close>, yet \<open>trks_stats\<close> goes on to open the file.
\<close>

theorem extension_guard_case_counterexample:
  "\<not> endswith ''A.TRKS'' ''.trks'' \<and>
   snd (save_trks empty_world ''A.TRKS'' [] two_batches two_batches) = Inr () \<and>
   files (fst (save_trks empty_world ''A.TRKS'' [] two_batches two_batches)) ''A.TRKS'' =
     Some (Tar [(''lineages.json'', JsonText (JList [])),
                (''raw.npy'', Npy two_batches), (''tracked.npy'', Npy two_batches)]) \<and>
   events (fst (save_trks empty_world ''A.TRKS'' [] two_batches two_batches)) = [OpenWrite ''A.TRKS''] \<and>
   snd (splitext ''A.TRK'') = ''.TRK'' \<and>
   snd (trks_stats empty_world ''A.TRK'') = Inl FileNotFoundError \<and>
   events (fst (trks_stats empty_world ''A.TRK'')) = [OpenRead ''A.TRK'']"
proof -
  have "save_trks empty_world ''A.TRKS'' [] two_batches two_batches =
     (empty_world\<lparr>files := (files empty_world)(''A.TRKS'' \<mapsto>
          Tar [(''lineages.json'', JsonText (json_dump [])),
               (''raw.npy'', Npy two_batches), (''tracked.npy'', Npy two_batches)]),
        events := events empty_world @ [OpenWrite ''A.TRKS'']\<rparr>, Inr ())"
    using concrete_guards(2) by (simp add: save_trks_def)
  then have s: "snd (save_trks empty_world ''A.TRKS'' [] two_batches two_batches) = Inr ()"
    "files (fst (save_trks empty_world ''A.TRKS'' [] two_batches two_batches)) ''A.TRKS'' =
     Some (Tar [(''lineages.json'', JsonText (JList [])),
                (''raw.npy'', Npy two_batches), (''tracked.npy'', Npy two_batches)])"
    "events (fst (save_trks empty_world ''A.TRKS'' [] two_batches two_batches)) = [OpenWrite ''A.TRKS'']"
    by (simp_all add: json_dump_def empty_world_def)
  have "trks_stats empty_world ''A.TRK'' =
     (empty_world\<lparr>events := events empty_world @ [OpenRead ''A.TRK'']\<rparr>, Inl FileNotFoundError)"
    by (simp add: trks_stats_def concrete_extensions(4) concrete_guards(4) load_trks_def empty_world_def)
  then have t: "snd (trks_stats empty_world ''A.TRK'') = Inl FileNotFoundError"
    "events (fst (trks_stats empty_world ''A.TRK'')) = [OpenRead ''A.TRK'']"
    by (simp_all add: empty_world_def)
  show ?thesis using concrete_guards(1) concrete_extensions(4) s t by simp
qed

text \<open>The amended claim at \<open>x.txt\<close>.\<close>

theorem extension_guards_witness:
  "\<not> endswith (str_lower ''x.txt'') ''.trks'' \<and>
   str_lower (snd (splitext ''x.txt'')) = ''.txt'' \<and>
   save_trks empty_world ''x.txt'' two_lineages two_batches two_batches = (empty_world, Inl ValueError) \<and>
   trks_stats empty_world ''x.txt'' = (empty_world, Inl ValueError)"
proof -
  have e: "str_lower (snd (splitext ''x.txt'')) = ''.txt''"
    by (simp only: concrete_extensions(5) concrete_guards(5))
  then have "str_lower (snd (splitext ''x.txt'')) \<noteq> ''.trks'' \<and> str_lower (snd (splitext ''x.txt'')) \<noteq> ''.trk''"
    by simp
  then show ?thesis
    using extension_guards[of "''x.txt''" empty_world two_lineages two_batches two_batches]
      concrete_guards(3) e by blast
qed

section \<open>Properties of the Lineage Statistics Analyzer\<close>






























end
